theory Spec2Isabelle
  imports Complex_Main "HOL-Library.Char_ord" "HOL-Library.List_Lexorder"
begin

section \<open>The news search page of src/app.py\<close>

text \<open>
  The page reads a table of news, fits a TF-IDF vectorizer on the column
  \<^verbatim>\<open>cut_content\<close>, and answers a query with the ten documents of highest cosine
  similarity whose score is not below 0.05. Scores are modelled as exact reals (the
  program computes them in double precision), strings as byte lists, whose
  lexicographic order is the order of Python's strings on UTF-8 text.

  Two collaborators are parameters of the model: \<open>lcut\<close> is \<^verbatim>\<open>jieba.lcut\<close>, and
  \<open>analyze\<close> is the analyzer of the vectorizer (lower-casing and the token pattern),
  which turns one string into its list of terms.
\<close>

subsection \<open>Data\<close>

record news =
  title :: string
  link :: string
  content :: string
  cut_content :: string

type_synonym dataframe = "news list"

record vectorizer =
  vocabulary :: "string list"
  idf :: "real list"

type_synonym model = "dataframe \<times> vectorizer \<times> real list list"

datatype exception = ValueError string

datatype notice = Warning | Success nat

datatype page = Stopped | Idle | Searched "(nat \<times> real) list" notice

subsection \<open>Array operations\<close>

text \<open>
  \<^verbatim>\<open>a.argsort()\<close>: the indices of \<open>a\<close> in ascending order of their values. The sort is
  the insertion sort of the library, which keeps equal values in index order, as
  numpy's default sort does on short arrays.
\<close>

definition argsort :: "'a::linorder list \<Rightarrow> nat list" where
  "argsort a = sort_key (\<lambda>i. a ! i) [0..<length a]"

definition dot :: "real list \<Rightarrow> real list \<Rightarrow> real" where
  "dot x y = sum_list (map2 (\<lambda>a b. a * b) x y)"

definition row_norm :: "real list \<Rightarrow> real" where
  "row_norm x = sqrt (sum_list (map (\<lambda>a. a * a) x))"

text \<open>
  \<^verbatim>\<open>normalize(X, norm='l2')\<close> on one row: the row divided by its Euclidean norm, a
  norm of zero being replaced by one.
\<close>

definition normalize :: "real list \<Rightarrow> real list" where
  "normalize x =
     (let norms = row_norm x;
          norms = (if norms = 0 then 1 else norms)
      in map (\<lambda>a. a / norms) x)"

text \<open>\<^verbatim>\<open>cosine_similarity(query_vec, tfidf_matrix).flatten()\<close>: both sides are normalized
  again, then multiplied.\<close>

definition cosine_similarity :: "real list \<Rightarrow> real list list \<Rightarrow> real list" where
  "cosine_similarity x Y = map (\<lambda>y. dot (normalize x) (normalize y)) Y"

subsection \<open>The vectorizer: \<^verbatim>\<open>TfidfVectorizer(max_features=10000)\<close>\<close>

text \<open>
  The vocabulary is built inside scikit-learn, whose code is not under src/; the three
  definitions below follow what its \<^verbatim>\<open>CountVectorizer\<close> does when \<^verbatim>\<open>max_features\<close> is
  given. First the distinct terms of the corpus are put in ascending order
  (\<^verbatim>\<open>_sort_features\<close>).
\<close>

definition sort_features :: "string list list \<Rightarrow> string list" where
  "sort_features docs = sort (remdups (concat docs))"

definition term_frequency :: "string list list \<Rightarrow> string \<Rightarrow> int" where
  "term_frequency docs t = sum_list (map (\<lambda>d. int (count_list d t)) docs)"

text \<open>
  Then (\<^verbatim>\<open>_limit_features\<close>), with more than \<open>limit\<close> terms, the \<open>limit\<close> first positions
  of the argsort of the negated corpus counts are kept; the kept terms stay in their
  ascending order, which gives them their new indices. The bounds on the document
  frequency (\<^verbatim>\<open>min_df\<close>, \<^verbatim>\<open>max_df\<close>) keep every term at their default values.
\<close>

definition limit_features :: "nat \<Rightarrow> string list list \<Rightarrow> string list \<Rightarrow> string list" where
  "limit_features limit docs terms =
     (if limit < length terms then
        (let tfs = map (term_frequency docs) terms;
             mask_inds = take limit (argsort (map uminus tfs))
         in map (\<lambda>j. terms ! j) (filter (\<lambda>j. j \<in> set mask_inds) [0..<length terms]))
      else terms)"

definition term_counts :: "string list \<Rightarrow> string list \<Rightarrow> nat list" where
  "term_counts vocab doc = map (\<lambda>t. count_list doc t) vocab"

definition document_frequency :: "nat list list \<Rightarrow> nat \<Rightarrow> nat" where
  "document_frequency X j = length (filter (\<lambda>row. row ! j \<noteq> 0) X)"

text \<open>Modelled from the spec: the smoothed inverse document frequency of section 4.2,
  step 2; the vectorizer that computes it is scikit-learn's and is not under src/.\<close>

definition fit_idf :: "nat list list \<Rightarrow> nat \<Rightarrow> real list" where
  "fit_idf X n_features =
     map (\<lambda>j. ln ((1 + real (length X)) / (1 + real (document_frequency X j))) + 1)
       [0..<n_features]"

text \<open>Modelled from the spec: the weighting of section 4.2, step 3, and the L2
  normalisation of its step 4; the vectorizer that computes them is scikit-learn's and
  is not under src/.\<close>

definition weigh :: "real list \<Rightarrow> nat list \<Rightarrow> real list" where
  "weigh idf_table counts = map2 (\<lambda>c w. real c * w) counts idf_table"

definition tfidf_transform :: "real list \<Rightarrow> nat list \<Rightarrow> real list" where
  "tfidf_transform idf_table counts = normalize (weigh idf_table counts)"

definition fit_transform ::
  "(string \<Rightarrow> string list) \<Rightarrow> nat \<Rightarrow> string list
     \<Rightarrow> exception + vectorizer \<times> real list list" where
  "fit_transform analyze max_features corpus =
     (let docs = map analyze corpus;
          terms = sort_features docs
      in if terms = [] then
           Inl (ValueError ''empty vocabulary; perhaps the documents only contain stop words'')
         else
           (let vocab = limit_features max_features docs terms;
                X = map (term_counts vocab) docs;
                idf_table = fit_idf X (length vocab)
            in Inr (\<lparr>vocabulary = vocab, idf = idf_table\<rparr>, map (tfidf_transform idf_table) X)))"

text \<open>\<^verbatim>\<open>vectorizer.transform([query_cut])\<close>: terms outside the vocabulary are not counted,
  and the stored idf table is used.\<close>

definition transform :: "(string \<Rightarrow> string list) \<Rightarrow> vectorizer \<Rightarrow> string \<Rightarrow> real list" where
  "transform analyze v raw = tfidf_transform (idf v) (term_counts (vocabulary v) (analyze raw))"

subsection \<open>Loading (lines 19 to 36)\<close>

text \<open>
  The file is \<open>None\<close> when it does not exist; \<^verbatim>\<open>(None, None, None)\<close> is the model
  \<open>None\<close>. The exception of the vectorizer is not caught.
\<close>

definition load_data_and_model ::
  "(string \<Rightarrow> string list) \<Rightarrow> dataframe option \<Rightarrow> exception + model option" where
  "load_data_and_model analyze file =
     (case file of
        None \<Rightarrow> Inr None
      | Some df \<Rightarrow>
          (let corpus = map cut_content df
           in case fit_transform analyze 10000 corpus of
                Inl e \<Rightarrow> Inl e
              | Inr (vectorizer, tfidf_matrix) \<Rightarrow> Inr (Some (df, vectorizer, tfidf_matrix))))"

text \<open>
  \<^verbatim>\<open>@st.cache_data\<close>: the function runs only while nothing is cached; what it returns
  is cached, what it raises is not.
\<close>

definition cached_load ::
  "(string \<Rightarrow> string list) \<Rightarrow> model option option \<Rightarrow> dataframe option
     \<Rightarrow> (exception + model option) \<times> model option option" where
  "cached_load analyze cache file =
     (case cache of
        Some r \<Rightarrow> (Inr r, cache)
      | None \<Rightarrow>
          (case load_data_and_model analyze file of
             Inl e \<Rightarrow> (Inl e, None)
           | Inr r \<Rightarrow> (Inr r, Some r)))"

subsection \<open>Searching (lines 69 to 111)\<close>

fun join :: "string \<Rightarrow> string list \<Rightarrow> string" where
  "join sep [] = []"
| "join sep [w] = w"
| "join sep (w # ws) = w @ sep @ join sep ws"

definition sorted_indices :: "real list \<Rightarrow> nat list" where
  "sorted_indices sim_scores = take 10 (rev (argsort sim_scores))"

text \<open>The loop over \<open>sorted_indices\<close>: the state is \<open>found_count\<close> and the results shown
  so far.\<close>

fun show_results ::
  "real list \<Rightarrow> nat list \<Rightarrow> nat \<times> (nat \<times> real) list \<Rightarrow> nat \<times> (nat \<times> real) list" where
  "show_results sim_scores [] (found_count, shown) = (found_count, shown)"
| "show_results sim_scores (idx # rest) (found_count, shown) =
     (let score = sim_scores ! idx
      in if score < 0.05 then show_results sim_scores rest (found_count, shown)
         else show_results sim_scores rest (found_count + 1, shown @ [(idx, score)]))"

definition search_scores ::
  "(string \<Rightarrow> string list) \<Rightarrow> (string \<Rightarrow> string list) \<Rightarrow> model \<Rightarrow> string \<Rightarrow> real list" where
  "search_scores lcut analyze m query =
     (case m of (df, vectorizer, tfidf_matrix) \<Rightarrow>
        (let query_cut = join '' '' (lcut query);
             query_vec = transform analyze vectorizer query_cut
         in cosine_similarity query_vec tfidf_matrix))"

definition search ::
  "(string \<Rightarrow> string list) \<Rightarrow> (string \<Rightarrow> string list) \<Rightarrow> model \<Rightarrow> bool \<Rightarrow> string \<Rightarrow> page" where
  "search lcut analyze m search_btn query =
     (if search_btn \<and> query \<noteq> [] then
        (let sim_scores = search_scores lcut analyze m query;
             (found_count, shown) = show_results sim_scores (sorted_indices sim_scores) (0, [])
         in if found_count = 0 then Searched shown Warning
            else Searched shown (Success found_count))
      else Idle)"

text \<open>One run of the script: the page, or the exception that ends the run, and the
  cache after it.\<close>

definition app ::
  "(string \<Rightarrow> string list) \<Rightarrow> (string \<Rightarrow> string list) \<Rightarrow> model option option
     \<Rightarrow> dataframe option \<Rightarrow> bool \<Rightarrow> string \<Rightarrow> (exception + page) \<times> model option option" where
  "app lcut analyze cache file search_btn query =
     (case cached_load analyze cache file of
        (Inl e, cache') \<Rightarrow> (Inl e, cache')
      | (Inr None, cache') \<Rightarrow> (Inr Stopped, cache')
      | (Inr (Some m), cache') \<Rightarrow> (Inr (search lcut analyze m search_btn query), cache'))"

fun results :: "page \<Rightarrow> (nat \<times> real) list" where
  "results (Searched shown n) = shown"
| "results Idle = []"
| "results Stopped = []"

fun exception_class :: "exception \<Rightarrow> string" where
  "exception_class (ValueError msg) = ''ValueError''"

subsection \<open>The Ranker as the specification orders its steps\<close>


subsection \<open>A small corpus\<close>

text \<open>An analyzer that splits at spaces, and a table of four news items: two with the
  same text, one with another text, one with no text.\<close>

fun split_acc :: "string \<Rightarrow> string \<Rightarrow> string list" where
  "split_acc w [] = (if w = [] then [] else [w])"
| "split_acc w (c # cs) =
     (if c = CHR '' '' then (if w = [] then split_acc [] cs else w # split_acc [] cs)
      else split_acc (w @ [c]) cs)"

definition split_words :: "string \<Rightarrow> string list" where
  "split_words s = split_acc [] s"

definition sample_df :: dataframe where
  "sample_df =
     [\<lparr>title = ''t0'', link = ''l0'', content = ''c0'', cut_content = ''aa''\<rparr>,
      \<lparr>title = ''t1'', link = ''l1'', content = ''c1'', cut_content = ''aa''\<rparr>,
      \<lparr>title = ''t2'', link = ''l2'', content = ''c2'', cut_content = ''bb''\<rparr>,
      \<lparr>title = ''t3'', link = ''l3'', content = ''c3'', cut_content = []\<rparr>]"

definition sample_model :: model where
  "sample_model =
     (sample_df, \<lparr>vocabulary = [''aa'', ''bb''], idf = [ln (5 / 3) + 1, ln (5 / 2) + 1]\<rparr>,
      [[1, 0], [1, 0], [0, 1], [0, 0]])"

section \<open>Properties\<close>

subsection \<open>The results loop\<close>

lemma show_results_eq:
  "show_results s idxs (c, sh) =
     (c + length (filter (\<lambda>i. \<not> s ! i < 0.05) idxs),
      sh @ map (\<lambda>i. (i, s ! i)) (filter (\<lambda>i. \<not> s ! i < 0.05) idxs))"
  by (induction idxs arbitrary: c sh) (simp_all add: Let_def)

lemma results_search:
  "results (search lcut analyze m b q) =
     (if b \<and> q \<noteq> [] then
        map (\<lambda>i. (i, search_scores lcut analyze m q ! i))
          (filter (\<lambda>i. \<not> search_scores lcut analyze m q ! i < 0.05)
             (sorted_indices (search_scores lcut analyze m q)))
      else [])"
  by (simp add: search_def show_results_eq Let_def)

lemma length_sorted_indices: "length (sorted_indices s) \<le> 10"
  by (simp add: sorted_indices_def)

subsection \<open>The order that argsort gives\<close>





subsection \<open>Filtering and truncating a descending list\<close>








subsection \<open>Rows, norms and products\<close>

lemma sumsq_nonneg: "0 \<le> sum_list (map (\<lambda>a. a * a) (x :: real list))"
  by (rule sum_list_nonneg) auto


lemma sumsq_scale:
  "sum_list (map (\<lambda>a. a * a) (map (\<lambda>a. a / c) x)) = sum_list (map (\<lambda>a. a * a) x) / (c * c)"
  for c :: real
  by (induction x) (simp_all add: add_divide_distrib)

lemma row_norm_zero_iff: "row_norm x = 0 \<longleftrightarrow> sum_list (map (\<lambda>a. a * a) x) = 0"
  by (simp add: row_norm_def)

lemma row_norm_sq: "row_norm x * row_norm x = sum_list (map (\<lambda>a. a * a) x)"
  using sumsq_nonneg [of x] by (simp add: row_norm_def)


lemma sumsq_normalize:
  "sum_list (map (\<lambda>a. a * a) (normalize x)) = (if row_norm x = 0 then 0 else 1)"
proof (cases "row_norm x = 0")
  case True
  then show ?thesis by (simp add: normalize_def row_norm_zero_iff)
next
  case False
  then have nz: "sum_list (map (\<lambda>a. a * a) x) \<noteq> 0" by (simp add: row_norm_zero_iff)
  from False have "normalize x = map (\<lambda>a. a / row_norm x) x"
    by (simp add: normalize_def)
  then have "sum_list (map (\<lambda>a. a * a) (normalize x)) =
             sum_list (map (\<lambda>a. a * a) x) / (row_norm x * row_norm x)"
    by (simp only: sumsq_scale)
  with nz False show ?thesis by (simp add: row_norm_sq)
qed




lemma sumsq_zero_iff: "sum_list (map (\<lambda>a. a * a) x) = 0 \<longleftrightarrow> (\<forall>a \<in> set x. a = 0)"
  for x :: "real list"
proof (induction x)
  case Nil
  then show ?case by simp
next
  case (Cons a x)
  have "a * a + sum_list (map (\<lambda>a. a * a) x) = 0 \<longleftrightarrow>
        a * a = 0 \<and> sum_list (map (\<lambda>a. a * a) x) = 0"
    using sumsq_nonneg [of x] zero_le_square [of a] by linarith
  with Cons show ?case by simp
qed



subsection \<open>What a successful load returns\<close>

lemma load_SomeD:
  assumes "load_data_and_model analyze file = Inr (Some m)"
  obtains df vocab X where
    "file = Some df"
    "vocab = limit_features 10000 (map (\<lambda>r. analyze (cut_content r)) df)
               (sort_features (map (\<lambda>r. analyze (cut_content r)) df))"
    "sort_features (map (\<lambda>r. analyze (cut_content r)) df) \<noteq> []"
    "X = map (\<lambda>r. term_counts vocab (analyze (cut_content r))) df"
    "m = (df, \<lparr>vocabulary = vocab, idf = fit_idf X (length vocab)\<rparr>,
          map (tfidf_transform (fit_idf X (length vocab))) X)"
  using assms
  by (auto simp: load_data_and_model_def fit_transform_def Let_def comp_def
      split: option.splits if_splits sum.splits)

lemma document_frequency_le: "document_frequency X j \<le> length X"
  by (simp add: document_frequency_def)

lemma fit_idf_ge_one: "w \<in> set (fit_idf X n) \<Longrightarrow> 1 \<le> w"
proof -
  assume "w \<in> set (fit_idf X n)"
  then obtain j where
    w: "w = ln ((1 + real (length X)) / (1 + real (document_frequency X j))) + 1"
    by (auto simp: fit_idf_def)
  have "1 \<le> (1 + real (length X)) / (1 + real (document_frequency X j))"
    using document_frequency_le [of X j] by (simp add: le_divide_eq)
  then have "0 \<le> ln ((1 + real (length X)) / (1 + real (document_frequency X j)))"
    by simp
  with w show ?thesis by simp
qed


lemma length_fit_idf: "length (fit_idf X n) = n"
  by (simp add: fit_idf_def)



subsection \<open>The small corpus, evaluated\<close>

lemma ln_5_3_pos: "0 < ln (5 / 3 :: real) + 1"
proof -
  have "0 \<le> ln (5 / 3 :: real)" by simp
  then show ?thesis by linarith
qed

lemma ln_5_2_pos: "0 < ln (5 / 2 :: real) + 1"
proof -
  have "0 \<le> ln (5 / 2 :: real)" by simp
  then show ?thesis by linarith
qed

lemmas evaluate =
  load_data_and_model_def fit_transform_def sort_features_def limit_features_def
  term_counts_def fit_idf_def document_frequency_def tfidf_transform_def weigh_def
  normalize_def row_norm_def split_words_def Let_def

lemmas evaluate_search =
  search_def search_scores_def transform_def cosine_similarity_def dot_def
  sorted_indices_def argsort_def term_counts_def tfidf_transform_def weigh_def
  normalize_def row_norm_def split_words_def Let_def

lemma load_sample:
  "load_data_and_model split_words (Some sample_df) = Inr (Some sample_model)"
  using ln_5_3_pos ln_5_2_pos by (simp add: evaluate sample_df_def sample_model_def)

lemma search_sample_aa:
  "search split_words split_words sample_model True ''aa'' =
     Searched [(1, 1), (0, 1)] (Success 2)"
  using ln_5_3_pos ln_5_2_pos by (simp add: evaluate_search sample_model_def)


subsection \<open>Counts, weights and rows of a document\<close>

lemma count_list_pos_iff: "0 < count_list xs x \<longleftrightarrow> x \<in> set xs"
  using count_list_0_iff [of xs x] by auto

lemma document_frequency_counts:
  "j < length vocab \<Longrightarrow>
   document_frequency (map (\<lambda>r. term_counts vocab (analyze (cut_content r))) df) j =
     length (filter (\<lambda>r. vocab ! j \<in> set (analyze (cut_content r))) df)"
  by (simp add: document_frequency_def term_counts_def filter_map comp_def count_list_pos_iff)

lemma length_weigh:
  "length idf_table = length vocab \<Longrightarrow>
   length (weigh idf_table (term_counts vocab doc)) = length vocab"
  by (simp add: weigh_def term_counts_def)

lemma weigh_zero_iff:
  assumes "length idf_table = length vocab" and "\<forall>w \<in> set idf_table. 0 < w"
  shows "(\<forall>a \<in> set (weigh idf_table (term_counts vocab doc)). a = 0) \<longleftrightarrow>
         set doc \<inter> set vocab = {}"
proof -
  let ?w = "weigh idf_table (term_counts vocab doc)"
  have nth: "?w ! j = real (count_list doc (vocab ! j)) * idf_table ! j" if "j < length vocab" for j
    using that assms(1) by (simp add: weigh_def term_counts_def)
  have pos: "0 < idf_table ! j" if "j < length vocab" for j
    using that assms by (simp add: all_set_conv_all_nth)
  have "(\<forall>a \<in> set ?w. a = 0) \<longleftrightarrow> (\<forall>j < length vocab. ?w ! j = 0)"
    using length_weigh [OF assms(1), of doc] by (simp add: all_set_conv_all_nth)
  also have "\<dots> \<longleftrightarrow> (\<forall>j < length vocab. vocab ! j \<notin> set doc)"
  proof -
    have "?w ! j = 0 \<longleftrightarrow> vocab ! j \<notin> set doc" if "j < length vocab" for j
      using nth [OF that] pos [OF that] by (simp add: count_list_0_iff)
    then show ?thesis by simp
  qed
  also have "\<dots> \<longleftrightarrow> (\<forall>t \<in> set vocab. t \<notin> set doc)"
    by (simp add: all_set_conv_all_nth)
  also have "\<dots> \<longleftrightarrow> set doc \<inter> set vocab = {}"
    by blast
  finally show ?thesis .
qed

lemma row_norm_weigh_zero_iff:
  assumes "length idf_table = length vocab" and "\<forall>w \<in> set idf_table. 0 < w"
  shows "row_norm (weigh idf_table (term_counts vocab doc)) = 0 \<longleftrightarrow> set doc \<inter> set vocab = {}"
  using weigh_zero_iff [OF assms] by (simp add: row_norm_zero_iff sumsq_zero_iff)

lemma fit_idf_pos: "\<forall>w \<in> set (fit_idf X n). 0 < w"
  using fit_idf_ge_one [of _ X n] by force

lemma normalize_zero: "row_norm x = 0 \<Longrightarrow> normalize x = replicate (length x) 0"
proof -
  assume "row_norm x = 0"
  then have z: "\<forall>a \<in> set x. a = 0" by (simp add: row_norm_zero_iff sumsq_zero_iff)
  then have "map (\<lambda>a. a / 1) x = replicate (length x) 0"
    by (induction x) simp_all
  with \<open>row_norm x = 0\<close> show ?thesis by (simp add: normalize_def)
qed

lemma row_norm_normalize: "row_norm x \<noteq> 0 \<Longrightarrow> row_norm (normalize x) = 1"
  by (simp add: row_norm_def sumsq_normalize)

subsection \<open>A query without vocabulary terms\<close>

lemma dot_zero_left: "\<forall>a \<in> set x. a = 0 \<Longrightarrow> dot x y = 0"
proof (induction x arbitrary: y)
  case Nil
  then show ?case by (simp add: dot_def)
next
  case (Cons a x)
  then show ?case by (cases y) (simp_all add: dot_def)
qed

lemma normalize_zeros: "\<forall>a \<in> set x. a = 0 \<Longrightarrow> \<forall>a \<in> set (normalize x). a = 0"
  by (auto simp: normalize_def Let_def)

lemma weigh_no_overlap:
  "set doc \<inter> set vocab = {} \<Longrightarrow> \<forall>a \<in> set (weigh idf_table (term_counts vocab doc)). a = 0"
  by (auto simp: weigh_def term_counts_def zip_map1 count_list_0_iff dest!: set_zip_leftD)

lemma search_scores_no_overlap:
  assumes "set (analyze (join '' '' (lcut query))) \<inter> set (vocabulary (fst (snd m))) = {}"
  shows "\<forall>score \<in> set (search_scores lcut analyze m query). score = 0"
proof -
  obtain df v M where m: "m = (df, v, M)" by (cases m) auto
  let ?q = "transform analyze v (join '' '' (lcut query))"
  have "\<forall>a \<in> set (normalize ?q). a = 0"
    unfolding transform_def tfidf_transform_def
    using assms by (intro normalize_zeros weigh_no_overlap) (simp add: m)
  then have "dot (normalize ?q) y = 0" for y
    by (rule dot_zero_left)
  then show ?thesis
    by (simp add: m search_scores_def cosine_similarity_def Let_def)
qed

lemma results_no_overlap:
  assumes "set (analyze (join '' '' (lcut query))) \<inter> set (vocabulary (fst (snd m))) = {}"
  shows "results (search lcut analyze m search_btn query) = []"
proof -
  let ?s = "search_scores lcut analyze m query"
  have "sorted_indices ?s = take 10 (rev (argsort ?s))" by (simp add: sorted_indices_def)
  have sub: "set (sorted_indices ?s) \<subseteq> {..<length ?s}"
    using set_take_subset [of 10 "rev (argsort ?s)"]
    by (auto simp: sorted_indices_def argsort_def)
  have "?s ! i < 0.05" if "i \<in> set (sorted_indices ?s)" for i
  proof -
    from that sub have "i < length ?s" by auto
    then have "?s ! i \<in> set ?s" by simp
    moreover from assms have "\<forall>score \<in> set ?s. score = 0"
      by (rule search_scores_no_overlap)
    ultimately have "?s ! i = 0" by blast
    then show ?thesis by simp
  qed
  then have "filter (\<lambda>i. \<not> ?s ! i < 0.05) (sorted_indices ?s) = []"
    by (simp add: filter_empty_conv)
  then show ?thesis by (simp add: results_search)
qed

lemmas load_sample_triple = load_sample [unfolded sample_model_def]

lemma cached_load_sample:
  "cached_load split_words None (Some sample_df) = (Inr (Some sample_model), Some (Some sample_model))"
  by (simp add: cached_load_def load_sample)

subsection \<open>The limited vocabulary\<close>




lemma distinct_argsort: "distinct (argsort a)"
  by (simp add: argsort_def)

lemma length_argsort: "length (argsort a) = length a"
  by (simp add: argsort_def)








subsection \<open>Runs of the page\<close>

lemma load_no_terms:
  assumes "\<forall>r \<in> set df. analyze (cut_content r) = []"
  shows "load_data_and_model analyze (Some df) =
           Inl (ValueError ''empty vocabulary; perhaps the documents only contain stop words'')"
proof -
  have "set (sort_features (map analyze (map cut_content df))) = {}"
    using assms by (simp add: sort_features_def)
  then have "sort_features (map analyze (map cut_content df)) = []"
    by (simp only: set_empty)
  then show ?thesis
    by (simp add: load_data_and_model_def fit_transform_def Let_def)
qed

lemma app_raises_cache:
  assumes "fst (app lcut analyze cache file search_btn query) = Inl e"
  shows "snd (app lcut analyze cache file search_btn query) = cache"
  using assms
  by (auto simp: app_def cached_load_def split: option.splits sum.splits)

lemma app_cached:
  "app lcut analyze (Some (Some m)) file search_btn query =
     (Inr (search lcut analyze m search_btn query), Some (Some m))"
  by (simp add: app_def cached_load_def)

lemma app_missing_file:
  "app lcut analyze None None search_btn query = (Inr Stopped, Some None)"
  by (simp add: app_def cached_load_def load_data_and_model_def)

lemma app_empty_corpus:
  "app split_words split_words None (Some []) True ''aa'' =
     (Inl (ValueError ''empty vocabulary; perhaps the documents only contain stop words''), None)"
  by (simp add: app_def cached_load_def load_data_and_model_def fit_transform_def
      sort_features_def Let_def)

section \<open>The statements of the specification\<close>

text \<open>
  C1. For every query, the list of results shown has at most ten entries (the
  \<open>top_k\<close> of the page), and every score shown is at least 0.05 (its relevance floor).
\<close>

theorem search_bounded:
  "length (results (search lcut analyze m search_btn query)) \<le> 10 \<and>
   (\<forall>r \<in> set (results (search lcut analyze m search_btn query)). 0.05 \<le> snd r)"
proof
  have "length (filter P (sorted_indices s)) \<le> 10" for P and s
    using length_filter_le [of P "sorted_indices s"] length_sorted_indices [of s] by linarith
  then show "length (results (search lcut analyze m search_btn query)) \<le> 10"
    by (simp add: results_search)
  show "\<forall>r \<in> set (results (search lcut analyze m search_btn query)). 0.05 \<le> snd r"
    by (auto simp: results_search)
qed

theorem search_bounded_witness:
  "(0, 1) \<in> set (results (search split_words split_words sample_model True ''aa'')) \<and>
   (0.05 :: real) \<le> snd (0 :: nat, 1 :: real) \<and>
   length (results (search split_words split_words sample_model True ''aa'')) = 2"
proof -
  have mem: "(0, 1) \<in> set (results (search split_words split_words sample_model True ''aa''))"
    by (simp add: search_sample_aa)
  from search_bounded [of split_words split_words sample_model True "''aa''"]
  have "\<forall>r \<in> set (results (search split_words split_words sample_model True ''aa'')).
          0.05 \<le> snd r" ..
  with mem have "(0.05 :: real) \<le> snd (0 :: nat, 1 :: real)" by blast
  with mem show ?thesis by (simp add: search_sample_aa)
qed




text \<open>
  C3. After a successful load, the idf weight stored for a vocabulary term \<open>t\<close> is
  \<open>ln ((1 + N) / (1 + df t)) + 1\<close>, where \<open>N\<close> is the number of documents and \<open>df t\<close> the
  number of documents that contain \<open>t\<close>; the table is part of the fitted vectorizer and
  has one entry for each term.
\<close>

theorem idf_formula:
  assumes "load_data_and_model analyze file = Inr (Some (df, v, M))"
    and "j < length (vocabulary v)"
  shows "length (idf v) = length (vocabulary v) \<and>
         idf v ! j =
           ln ((1 + real (length df)) /
               (1 + real (length (filter (\<lambda>r. vocabulary v ! j \<in> set (analyze (cut_content r))) df))))
           + 1"
proof -
  from assms(1) obtain vocab X where
    X: "X = map (\<lambda>r. term_counts vocab (analyze (cut_content r))) df"
    and v: "v = \<lparr>vocabulary = vocab, idf = fit_idf X (length vocab)\<rparr>"
    by (rule load_SomeD) simp
  from assms(2) v have j: "j < length vocab" by simp
  then have "fit_idf X (length vocab) ! j =
      ln ((1 + real (length X)) / (1 + real (document_frequency X j))) + 1"
    by (simp add: fit_idf_def)
  with j show ?thesis
    by (simp add: v X document_frequency_counts length_fit_idf)
qed

theorem idf_formula_witness:
  "load_data_and_model split_words (Some sample_df) = Inr (Some sample_model) \<and>
   idf (fst (snd sample_model)) ! 0 =
     ln ((1 + real (length sample_df)) /
         (1 + real (length (filter (\<lambda>r. ''aa'' \<in> set (split_words (cut_content r))) sample_df))))
     + 1 \<and>
   idf (fst (snd sample_model)) ! 0 = ln (5 / 3) + 1"
  using idf_formula [OF load_sample_triple, of 0]
  by (simp add: load_sample sample_model_def)

text \<open>
  C4. After a successful load, every row of the matrix is the weight vector of its
  document divided by its Euclidean norm, and has norm one; a document without
  vocabulary terms has a weight vector of norm zero, and its row is all zero.
\<close>

theorem rows_normalized:
  assumes "load_data_and_model analyze file = Inr (Some (df, v, M))"
    and "i < length df"
    and "w = weigh (idf v) (term_counts (vocabulary v) (analyze (cut_content (df ! i))))"
  shows "length M = length df \<and>
         (row_norm w = 0 \<longleftrightarrow> set (analyze (cut_content (df ! i))) \<inter> set (vocabulary v) = {}) \<and>
         (if row_norm w = 0 then M ! i = replicate (length (vocabulary v)) 0
          else M ! i = map (\<lambda>a. a / row_norm w) w \<and> row_norm (M ! i) = 1)"
proof -
  from assms(1) obtain vocab X where
    X: "X = map (\<lambda>r. term_counts vocab (analyze (cut_content r))) df"
    and v: "v = \<lparr>vocabulary = vocab, idf = fit_idf X (length vocab)\<rparr>"
    and M: "M = map (tfidf_transform (fit_idf X (length vocab))) X"
    by (rule load_SomeD) simp
  have len: "length (idf v) = length (vocabulary v)"
    by (simp add: v length_fit_idf)
  have pos: "\<forall>x \<in> set (idf v). 0 < x"
    by (simp add: v fit_idf_pos)
  have row: "M ! i = normalize w"
    using assms(2) by (simp add: M X v assms(3) tfidf_transform_def)
  have lw: "length w = length (vocabulary v)"
    unfolding assms(3) by (rule length_weigh [OF len])
  have zero: "row_norm w = 0 \<longleftrightarrow> set (analyze (cut_content (df ! i))) \<inter> set (vocabulary v) = {}"
    unfolding assms(3) by (rule row_norm_weigh_zero_iff [OF len pos])
  have none: "M ! i = replicate (length (vocabulary v)) 0" if "row_norm w = 0"
    using that row lw by (simp add: normalize_zero)
  have some: "M ! i = map (\<lambda>a. a / row_norm w) w \<and> row_norm (M ! i) = 1"
    if "row_norm w \<noteq> 0"
    using that row row_norm_normalize [of w] by (simp add: normalize_def)
  show ?thesis
  proof (intro conjI)
    show "length M = length df" by (simp add: M X)
    show "row_norm w = 0 \<longleftrightarrow>
          set (analyze (cut_content (df ! i))) \<inter> set (vocabulary v) = {}"
      by (rule zero)
    show "if row_norm w = 0 then M ! i = replicate (length (vocabulary v)) 0
          else M ! i = map (\<lambda>a. a / row_norm w) w \<and> row_norm (M ! i) = 1"
    proof (cases "row_norm w = 0")
      case True
      show ?thesis by (subst if_P [OF True]) (rule none [OF True])
    next
      case False
      show ?thesis by (subst if_not_P [OF False]) (rule some [OF False])
    qed
  qed
qed

theorem rows_normalized_witness:
  "load_data_and_model split_words (Some sample_df) = Inr (Some sample_model) \<and>
   row_norm (weigh (idf (fst (snd sample_model)))
      (term_counts (vocabulary (fst (snd sample_model))) (split_words (cut_content (sample_df ! 3))))) = 0 \<and>
   snd (snd sample_model) ! 3 = [0, 0] \<and>
   row_norm (weigh (idf (fst (snd sample_model)))
      (term_counts (vocabulary (fst (snd sample_model))) (split_words (cut_content (sample_df ! 0))))) \<noteq> 0 \<and>
   row_norm (snd (snd sample_model) ! 0) = 1"
proof -
  have n: "(3 :: nat) < length sample_df" "(0 :: nat) < length sample_df"
    by (simp_all add: sample_df_def)
  have e3: "set (split_words (cut_content (sample_df ! 3))) \<inter> set [''aa'', ''bb''] = {}"
    by (simp add: sample_df_def split_words_def)
  have e0: "set (split_words (cut_content (sample_df ! 0))) \<inter> set [''aa'', ''bb''] \<noteq> {}"
    by (simp add: sample_df_def split_words_def)
  from rows_normalized [OF load_sample_triple n(1) refl] e3
  have a: "row_norm (weigh (idf (fst (snd sample_model)))
      (term_counts (vocabulary (fst (snd sample_model))) (split_words (cut_content (sample_df ! 3))))) = 0"
    by (simp add: sample_model_def)
  from rows_normalized [OF load_sample_triple n(1) refl] e3
  have b: "snd (snd sample_model) ! 3 = [0, 0]"
    by (simp add: sample_model_def)
  from rows_normalized [OF load_sample_triple n(2) refl] e0
  have c: "row_norm (weigh (idf (fst (snd sample_model)))
      (term_counts (vocabulary (fst (snd sample_model))) (split_words (cut_content (sample_df ! 0))))) \<noteq> 0"
    by (simp add: sample_model_def)
  from rows_normalized [OF load_sample_triple n(2) refl] e0
  have d: "row_norm (snd (snd sample_model) ! 0) = 1"
    by (simp add: sample_model_def row_norm_def)
  from a b c d show ?thesis by (simp add: load_sample)
qed



text \<open>
  C6. With a model loaded, a query that is empty, or none of whose terms is in the
  vocabulary, ends the run without an exception and with no result shown.
\<close>

theorem no_match_empty:
  assumes "cached_load analyze cache file = (Inr (Some m), cache')"
    and "query = [] \<or> set (analyze (join '' '' (lcut query))) \<inter> set (vocabulary (fst (snd m))) = {}"
  shows "map_sum exception_class results (fst (app lcut analyze cache file search_btn query)) = Inr []"
proof -
  have "results (search lcut analyze m search_btn query) = []"
    using assms(2)
  proof
    assume "query = []"
    then show ?thesis by (simp add: search_def)
  next
    assume "set (analyze (join '' '' (lcut query))) \<inter> set (vocabulary (fst (snd m))) = {}"
    then show ?thesis by (rule results_no_overlap)
  qed
  with assms(1) show ?thesis by (simp add: app_def)
qed

theorem no_match_empty_witness:
  "cached_load split_words None (Some sample_df) = (Inr (Some sample_model), Some (Some sample_model)) \<and>
   set (split_words (join '' '' (split_words ''zz''))) \<inter> set (vocabulary (fst (snd sample_model))) = {} \<and>
   map_sum exception_class results
     (fst (app split_words split_words None (Some sample_df) True ''zz'')) = Inr [] \<and>
   map_sum exception_class results
     (fst (app split_words split_words None (Some sample_df) True [])) = Inr []"
proof -
  have z: "set (split_words (join '' '' (split_words ''zz''))) \<inter>
           set (vocabulary (fst (snd sample_model))) = {}"
    by (simp add: split_words_def sample_model_def)
  from no_match_empty [OF cached_load_sample, of "''zz''" split_words True] z
  have a: "map_sum exception_class results
     (fst (app split_words split_words None (Some sample_df) True ''zz'')) = Inr []"
    by blast
  from no_match_empty [OF cached_load_sample, of "[]" split_words True]
  have b: "map_sum exception_class results
     (fst (app split_words split_words None (Some sample_df) True [])) = Inr []"
    by blast
  from a b z show ?thesis by (simp add: cached_load_sample)
qed




text \<open>
  C8, as stated: loading an empty corpus fails with \<open>EmptyCorpusError\<close>, and a load error
  leaves the indexed state as it was. The exception raised on an empty corpus is the
  \<open>ValueError\<close> of the vectorizer. A missing file raises nothing: the load returns
  \<^verbatim>\<open>(None, None, None)\<close>, which is cached, so that a later run stops even when the file
  is there again.
\<close>

theorem empty_corpus_error_counterexample:
  "fst (app split_words split_words None (Some []) True ''aa'') =
     Inl (ValueError ''empty vocabulary; perhaps the documents only contain stop words'') \<and>
   exception_class (ValueError ''empty vocabulary; perhaps the documents only contain stop words'')
     \<noteq> ''EmptyCorpusError'' \<and>
   app split_words split_words None None True ''aa'' = (Inr Stopped, Some None) \<and>
   fst (app split_words split_words (Some None) (Some sample_df) True ''aa'') = Inr Stopped \<and>
   fst (app split_words split_words None (Some sample_df) True ''aa'') =
     Inr (Searched [(1, 1), (0, 1)] (Success 2))"
  by (simp add: app_empty_corpus app_missing_file)
     (simp add: app_def cached_load_def load_sample search_sample_aa)

text \<open>
  C8, amended: loading a corpus without any term (an empty table, or documents without
  terms) raises the \<open>ValueError\<close> of the vectorizer; a run that raises leaves the cache as
  it was; once a model is cached, every later run searches that model, whatever the
  file has become; a missing file raises nothing, the load returns
  \<^verbatim>\<open>(None, None, None)\<close>, which is cached, and the page stops.
\<close>

theorem load_failures:
  "((\<forall>r \<in> set df. analyze (cut_content r) = []) \<longrightarrow>
      load_data_and_model analyze (Some df) =
        Inl (ValueError ''empty vocabulary; perhaps the documents only contain stop words'')) \<and>
   (fst (app lcut analyze cache csv search_btn query) = Inl e \<longrightarrow>
      snd (app lcut analyze cache csv search_btn query) = cache) \<and>
   app lcut analyze (Some (Some m)) csv search_btn query =
     (Inr (search lcut analyze m search_btn query), Some (Some m)) \<and>
   app lcut analyze None None search_btn query = (Inr Stopped, Some None)"
  using load_no_terms [of df analyze]
    app_raises_cache [of lcut analyze cache csv search_btn query e]
  by (simp add: app_cached app_missing_file)

theorem load_failures_witness:
  "load_data_and_model split_words (Some []) =
     Inl (ValueError ''empty vocabulary; perhaps the documents only contain stop words'') \<and>
   fst (app split_words split_words None (Some []) True ''aa'') =
     Inl (ValueError ''empty vocabulary; perhaps the documents only contain stop words'') \<and>
   snd (app split_words split_words None (Some []) True ''aa'') = None \<and>
   app split_words split_words (Some (Some sample_model)) (Some []) True ''aa'' =
     (Inr (Searched [(1, 1), (0, 1)] (Success 2)), Some (Some sample_model))"
proof -
  note F = load_failures [where df = "[]" and analyze = split_words and lcut = split_words
      and cache = None and csv = "Some []" and search_btn = True and query = "''aa''"
      and e = "ValueError ''empty vocabulary; perhaps the documents only contain stop words''"
      and m = sample_model]
  from F have a: "load_data_and_model split_words (Some []) =
     Inl (ValueError ''empty vocabulary; perhaps the documents only contain stop words'')"
    by simp
  have b: "fst (app split_words split_words None (Some []) True ''aa'') =
     Inl (ValueError ''empty vocabulary; perhaps the documents only contain stop words'')"
    by (simp add: app_empty_corpus)
  from F b have c: "snd (app split_words split_words None (Some []) True ''aa'') = None"
    by blast
  from F have d: "app split_words split_words (Some (Some sample_model)) (Some []) True ''aa'' =
     (Inr (search split_words split_words sample_model True ''aa''), Some (Some sample_model))"
    by blast
  from a b c d show ?thesis by (simp add: search_sample_aa)
qed




end
